theory Spec2Isabelle
  imports Main "HOL-Library.Char_ord" "HOL-Library.List_Lexorder"
begin

section \<open>Ralph Mission Control server: the log-access and log-tailing handlers\<close>

text \<open>
  A shallow embedding of \<^verbatim>\<open>ralph-dashboard/server.py\<close>. Text is a list of
  characters with code points below 256. The standard-library decoder
  \<^verbatim>\<open>json.loads\<close> is a parameter \<open>loads\<close> of every handler that calls it. The
  snapshot handlers take a decoder with three outcomes: a record,
  \<^verbatim>\<open>json.JSONDecodeError\<close>, the only exception they catch, or another exception,
  which ends the handler. The stream loop is modelled for passes that complete:
  its decoder has two outcomes, \<open>loads s = None\<close> standing for
  \<^verbatim>\<open>json.JSONDecodeError\<close>, and a file is what one pass observes of it: the size
  \<^verbatim>\<open>stat\<close> reports and the text read, as two fields, so that nothing ties the
  size to the text.
\<close>

datatype exn =
    ValueError | RecursionError | UnicodeDecodeError
  | IsADirectoryError | PermissionError | OSError

subsection \<open>Text: whitespace, stripping, lines\<close>

definition py_isspace :: "char \<Rightarrow> bool" where
  \<comment> \<open>\<^verbatim>\<open>str.isspace\<close> on one character, for code points below 256.\<close>
  "py_isspace c =
     (let n = (of_char c :: nat)
      in (9 \<le> n \<and> n \<le> 13) \<or> (28 \<le> n \<and> n \<le> 32) \<or> n = 133 \<or> n = 160)"

definition py_strip :: "string \<Rightarrow> string" where
  \<comment> \<open>\<^verbatim>\<open>line.strip()\<close>: whitespace removed at both ends.\<close>
  "py_strip s = rev (dropWhile py_isspace (rev (dropWhile py_isspace s)))"

fun readlines_from :: "string \<Rightarrow> string \<Rightarrow> string list" where
  \<comment> \<open>Text-mode line iteration with universal newlines: a line ends at
      \<^verbatim>\<open>\n\<close>, \<^verbatim>\<open>\r\n\<close> or \<^verbatim>\<open>\r\<close>, each read as \<^verbatim>\<open>\n\<close> and kept on the line;
      \<open>cur\<close> is the line read so far.\<close>
  "readlines_from cur [] = (if cur = [] then [] else [cur])"
| "readlines_from cur [c] =
     (if c = CHR 0x0A \<or> c = CHR 0x0D then [cur @ [CHR 0x0A]] else [cur @ [c]])"
| "readlines_from cur (c # d # cs) =
     (if c = CHR 0x0A then (cur @ [CHR 0x0A]) # readlines_from [] (d # cs)
      else if c = CHR 0x0D then
        (if d = CHR 0x0A then (cur @ [CHR 0x0A]) # readlines_from [] cs
         else (cur @ [CHR 0x0A]) # readlines_from [] (d # cs))
      else readlines_from (cur @ [c]) (d # cs))"

definition readlines :: "string \<Rightarrow> string list" where
  "readlines text = readlines_from [] text"

subsection \<open>Reading a whole log (\<^verbatim>\<open>serve_log\<close>, \<^verbatim>\<open>serve_specific_log\<close>)\<close>

datatype 'r decoded = Decoded 'r | JSONDecodeError | Uncaught exn

fun read_events ::
  "(string \<Rightarrow> 'r decoded) \<Rightarrow> string list \<Rightarrow> 'r list \<Rightarrow> exn + 'r list" where
  \<comment> \<open>The loop \<^verbatim>\<open>for line in f\<close> of both snapshot handlers; \<open>events\<close> is the
      list built so far. An exception that is not \<^verbatim>\<open>json.JSONDecodeError\<close> leaves
      the loop and the handler.\<close>
  "read_events loads [] events = Inr events"
| "read_events loads (l # ls) events =
     (let line = py_strip l
      in if line \<noteq> [] then
           (case loads line of
              Decoded event \<Rightarrow> read_events loads ls (events @ [event])
            | JSONDecodeError \<Rightarrow> read_events loads ls events
            | Uncaught e \<Rightarrow> Inl e)
         else read_events loads ls events)"

definition quiet :: "'r decoded \<Rightarrow> 'r option" where
  \<comment> \<open>The outcome of a decoder as the stream loop's model sees it.\<close>
  "quiet d = (case d of Decoded r \<Rightarrow> Some r | _ \<Rightarrow> None)"

fun collect_events :: "(string \<Rightarrow> 'r option) \<Rightarrow> string list \<Rightarrow> 'r list \<Rightarrow> 'r list" where
  \<comment> \<open>The same loop for a decoder that raises nothing but
      \<^verbatim>\<open>json.JSONDecodeError\<close>: the valid records of the lines, after \<open>events\<close>.\<close>
  "collect_events loads [] events = events"
| "collect_events loads (l # ls) events =
     (let line = py_strip l
      in if line \<noteq> [] then
           (case loads line of
              Some event \<Rightarrow> collect_events loads ls (events @ [event])
            | None \<Rightarrow> collect_events loads ls events)
         else collect_events loads ls events)"

subsection \<open>The stream loop (\<^verbatim>\<open>stream_log\<close>)\<close>

datatype 'r frame = Data nat 'r | Keepalive

fun send_new_lines ::
  "(string \<Rightarrow> 'r option) \<Rightarrow> nat \<Rightarrow> string list \<Rightarrow> int \<Rightarrow> 'r frame list \<times> int" where
  \<comment> \<open>The loop \<^verbatim>\<open>for i, line in enumerate(lines)\<close>: \<open>i\<close> is the index of the head
      of the remaining lines, the result is the frames written and the final
      \<^verbatim>\<open>offset\<close>.\<close>
  "send_new_lines loads i [] offset = ([], offset)"
| "send_new_lines loads i (l # ls) offset =
     (if int i \<ge> offset then
        (let line = py_strip l
         in if line \<noteq> [] then
              (case loads line of
                 Some event \<Rightarrow>
                   (let (out, offset') = send_new_lines loads (Suc i) ls (int i + 1)
                    in (Data i event # out, offset'))
               | None \<Rightarrow> send_new_lines loads (Suc i) ls offset)
            else send_new_lines loads (Suc i) ls offset)
      else send_new_lines loads (Suc i) ls offset)"

record file_obs =
  st_size :: nat
  content :: string

record cursor =
  offset :: int
  last_size :: nat

definition poll ::
  "(string \<Rightarrow> 'r option) \<Rightarrow> file_obs option \<Rightarrow> cursor \<Rightarrow> 'r frame list \<times> cursor" where
  \<comment> \<open>One pass of the body of \<^verbatim>\<open>while True\<close> up to the keepalive. The argument
      is what the pass observes of the current log: \<open>None\<close> when it does not exist,
      else the size \<^verbatim>\<open>stat\<close> reports and the text \<^verbatim>\<open>readlines\<close> reads.\<close>
  "poll loads log c =
     (case log of
        None \<Rightarrow> ([], c)
      | Some f \<Rightarrow>
          if st_size f \<noteq> last_size c then
            (let (out, offset') = send_new_lines loads 0 (readlines (content f)) (offset c)
             in (out, \<lparr>offset = offset', last_size = st_size f\<rparr>))
          else ([], c))"

definition stream_iter ::
  "(string \<Rightarrow> 'r option) \<Rightarrow> file_obs option \<Rightarrow> cursor \<Rightarrow> 'r frame list \<times> cursor" where
  \<comment> \<open>One full pass of the loop: the poll, then the keepalive.\<close>
  "stream_iter loads log c = (let (out, c') = poll loads log c in (out @ [Keepalive], c'))"

fun stream_loop ::
  "(string \<Rightarrow> 'r option) \<Rightarrow> file_obs option list \<Rightarrow> cursor \<Rightarrow> 'r frame list \<times> cursor" where
  \<comment> \<open>The first passes of the loop, one per observation of the log.\<close>
  "stream_loop loads [] c = ([], c)"
| "stream_loop loads (log # logs) c =
     (let (out, c') = stream_iter loads log c;
          (rest, c'') = stream_loop loads logs c'
      in (out @ rest, c''))"

subsection \<open>Query parameter conversion (\<^verbatim>\<open>int(...)\<close>)\<close>

definition is_digit :: "char \<Rightarrow> bool" where
  "is_digit c = (let n = (of_char c :: nat) in 48 \<le> n \<and> n \<le> 57)"

definition digit_val :: "char \<Rightarrow> nat" where
  "digit_val c = of_char c - 48"

fun py_digits :: "string \<Rightarrow> nat \<Rightarrow> nat option" where
  \<comment> \<open>The digits after the first one; a single underscore may stand between
      two digits.\<close>
  "py_digits [] acc = Some acc"
| "py_digits (c # cs) acc =
     (if is_digit c then py_digits cs (10 * acc + digit_val c)
      else if c = CHR ''_'' then
        (case cs of
           [] \<Rightarrow> None
         | d # ds \<Rightarrow> if is_digit d then py_digits ds (10 * acc + digit_val d) else None)
      else None)"

definition py_nat :: "string \<Rightarrow> nat option" where
  \<comment> \<open>A numeral of more than 4300 digits, the interpreter's default limit, is
      refused like a malformed one.\<close>
  "py_nat s =
     (if 4300 < length (filter is_digit s) then None
      else case s of
             [] \<Rightarrow> None
           | c # cs \<Rightarrow> if is_digit c then py_digits cs (digit_val c) else None)"

definition int_isspace :: "char \<Rightarrow> bool" where
  \<comment> \<open>The whitespace \<^verbatim>\<open>int\<close> skips around a numeral, for code points below
      256: it does not skip the separators 28 to 31, which \<^verbatim>\<open>str.strip\<close>
      removes.\<close>
  "int_isspace c =
     (let n = (of_char c :: nat)
      in (9 \<le> n \<and> n \<le> 13) \<or> n = 32 \<or> n = 133 \<or> n = 160)"

definition int_strip :: "string \<Rightarrow> string" where
  "int_strip s = rev (dropWhile int_isspace (rev (dropWhile int_isspace s)))"

definition py_int :: "string \<Rightarrow> int option" where
  \<comment> \<open>\<^verbatim>\<open>int(s)\<close> for a string in base 10: surrounding whitespace is dropped, one
      sign is allowed; \<open>None\<close> stands for \<^verbatim>\<open>ValueError\<close>.\<close>
  "py_int s =
     (case int_strip s of
        [] \<Rightarrow> None
      | c # cs \<Rightarrow>
          if c = CHR ''-'' then map_option (\<lambda>n. - int n) (py_nat cs)
          else if c = CHR ''+'' then map_option int (py_nat cs)
          else map_option int (py_nat (c # cs)))"

definition decimal :: "string \<Rightarrow> nat" where
  \<comment> \<open>The number a string of decimal digits denotes.\<close>
  "decimal v = foldl (\<lambda>a d. 10 * a + digit_val d) 0 v"

subsection \<open>Replies\<close>

record 'm log_info =
  name :: string
  size :: nat
  modified :: 'm

datatype ('r, 'm) body =
    NoBody
  | ErrorPage string
  | JsonEvents "'r list"
  | JsonLogs "'m log_info list"
  | EventStream "'r frame list"

record ('r, 'm) reply =
  status :: nat
  headers :: "(string \<times> string) list"
  body :: "('r, 'm) body"
  raised :: "exn option"

definition send_error :: "nat \<Rightarrow> string \<Rightarrow> ('r, 'm) reply" where
  \<comment> \<open>The library's error reply: an HTML page carrying the message. Of the
      headers the library adds only the content type is kept.\<close>
  "send_error code message =
     \<lparr>status = code, headers = [(''Content-Type'', ''text/html;charset=utf-8'')],
      body = ErrorPage message, raised = None\<rparr>"

subsection \<open>The handlers\<close>

datatype node = File file_obs | Directory | Unreadable exn

datatype lookup = Absent | Present node | StatError

definition read_node :: "(string \<Rightarrow> 'r decoded) \<Rightarrow> node \<Rightarrow> exn + 'r list" where
  \<comment> \<open>Opening what a path names and reading it as a log. \<open>Unreadable e\<close> is a
      file whose opening or reading as text raises \<open>e\<close>: no permission, or bytes
      that are no text in the encoding of the locale.\<close>
  "read_node loads nd =
     (case nd of
        File f \<Rightarrow> read_events loads (readlines (content f)) []
      | Directory \<Rightarrow> Inl IsADirectoryError
      | Unreadable e \<Rightarrow> Inl e)"

definition serve_log :: "(string \<Rightarrow> 'r decoded) \<Rightarrow> lookup \<Rightarrow> ('r, 'm) reply" where
  \<comment> \<open>The argument is what the file system answers for \<^verbatim>\<open>CURRENT_LOG\<close>:
      \<open>StatError\<close> when \<^verbatim>\<open>exists\<close> itself raises. The headers are sent first; an
      exception after them leaves the reply without a body.\<close>
  "serve_log loads log =
     (let sent = [(''Content-Type'', ''application/json''),
                  (''Access-Control-Allow-Origin'', ''*''),
                  (''Cache-Control'', ''no-cache'')]
      in case log of
           StatError \<Rightarrow>
             \<lparr>status = 200, headers = sent, body = NoBody, raised = Some OSError\<rparr>
         | Absent \<Rightarrow>
             \<lparr>status = 200, headers = sent, body = JsonEvents [], raised = None\<rparr>
         | Present nd \<Rightarrow>
             (case read_node loads nd of
                Inl e \<Rightarrow> \<lparr>status = 200, headers = sent, body = NoBody, raised = Some e\<rparr>
              | Inr events \<Rightarrow>
                  \<lparr>status = 200, headers = sent, body = JsonEvents events, raised = None\<rparr>))"

definition stream_headers :: "(string \<times> string) list" where
  "stream_headers =
     [(''Content-Type'', ''text/event-stream''),
      (''Access-Control-Allow-Origin'', ''*''),
      (''Cache-Control'', ''no-cache''),
      (''Connection'', ''keep-alive'')]"

definition stream_log ::
  "(string \<Rightarrow> 'r option) \<Rightarrow> string option \<Rightarrow> file_obs option list \<Rightarrow> ('r, 'm) reply" where
  \<comment> \<open>\<open>param\<close> is the first value of the query parameter \<^verbatim>\<open>offset\<close>, if the parsed
      query has one; \<open>logs\<close> is what the first passes of the loop observe. The
      headers are sent before the parameter is converted; \<open>raised\<close> is the
      exception of that conversion, the passes being those that complete.\<close>
  "stream_log loads param logs =
     (case (case param of None \<Rightarrow> Some 0 | Some v \<Rightarrow> py_int v) of
        None \<Rightarrow>
          \<lparr>status = 200, headers = stream_headers, body = EventStream [],
           raised = Some ValueError\<rparr>
      | Some start \<Rightarrow>
          \<lparr>status = 200, headers = stream_headers,
           body = EventStream (fst (stream_loop loads logs \<lparr>offset = start, last_size = 0\<rparr>)),
           raised = None\<rparr>)"

record 'm dir_entry =
  d_name :: string
  d_size :: nat
  d_mtime :: 'm

definition py_startswith :: "string \<Rightarrow> string \<Rightarrow> bool" where
  "py_startswith s p = (take (length p) s = p)"

definition py_endswith :: "string \<Rightarrow> string \<Rightarrow> bool" where
  "py_endswith s p = (length p \<le> length s \<and> drop (length s - length p) s = p)"

definition glob_match :: "string \<Rightarrow> bool" where
  \<comment> \<open>The pattern \<^verbatim>\<open>ralph_*.jsonl\<close>: the star matches any text, also none.\<close>
  "glob_match n = (12 \<le> length n \<and> py_startswith n ''ralph_'' \<and> py_endswith n ''.jsonl'')"

definition sorted_reverse :: "('a \<Rightarrow> 'k::linorder) \<Rightarrow> 'a list \<Rightarrow> 'a list" where
  \<comment> \<open>\<^verbatim>\<open>sorted(xs, reverse=True)\<close>: descending, equal keys keep their order.\<close>
  "sorted_reverse key xs = rev (sort_key key (rev xs))"

definition list_logs :: "'m dir_entry list option \<Rightarrow> ('r, 'm) reply" where
  \<comment> \<open>The argument is the log directory: \<open>None\<close> when it does not exist, else
      its entries with what \<^verbatim>\<open>stat\<close> reports of each. Paths of one directory
      compare as their names do.\<close>
  "list_logs dir =
     \<lparr>status = 200,
      headers = [(''Content-Type'', ''application/json''),
                 (''Access-Control-Allow-Origin'', ''*'')],
      body = JsonLogs
               (case dir of
                  None \<Rightarrow> []
                | Some entries \<Rightarrow>
                    map (\<lambda>f. \<lparr>name = d_name f, size = d_size f, modified = d_mtime f\<rparr>)
                      (sorted_reverse d_name (filter (\<lambda>f. glob_match (d_name f)) entries))),
      raised = None\<rparr>"

subsection \<open>Paths and the archived log by name\<close>

fun py_split :: "char \<Rightarrow> string \<Rightarrow> string \<Rightarrow> string list" where
  \<comment> \<open>\<^verbatim>\<open>s.split(sep)\<close> for a one-character separator; \<open>cur\<close> is the piece read
      so far.\<close>
  "py_split sep cur [] = [cur]"
| "py_split sep cur (c # cs) =
     (if c = sep then cur # py_split sep [] cs else py_split sep (cur @ [c]) cs)"

definition path_parts :: "string \<Rightarrow> string list" where
  \<comment> \<open>The components of a path as \<^verbatim>\<open>pathlib\<close> keeps them: empty ones and
      \<^verbatim>\<open>.\<close> are dropped, \<^verbatim>\<open>..\<close> stays.\<close>
  "path_parts s = filter (\<lambda>p. p \<noteq> [] \<and> p \<noteq> ''.'') (py_split (CHR ''/'') [] s)"

definition path_join :: "string list \<Rightarrow> string \<Rightarrow> string list" where
  \<comment> \<open>\<^verbatim>\<open>LOG_DIR / log_name\<close>, a path being the list of its components from
      the root: an absolute right operand replaces the left one.\<close>
  "path_join base n = (if py_startswith n ''/'' then path_parts n else base @ path_parts n)"

fun resolve_dots :: "string list \<Rightarrow> string list \<Rightarrow> string list" where
  \<comment> \<open>The place a path names once every \<^verbatim>\<open>..\<close> has been followed; \<open>seen\<close> is
      the place reached so far, innermost first.\<close>
  "resolve_dots seen [] = rev seen"
| "resolve_dots seen (p # ps) =
     (if p = ''..'' then resolve_dots (tl seen) ps else resolve_dots (p # seen) ps)"

definition inside_dir :: "string list \<Rightarrow> string list \<Rightarrow> bool" where
  \<comment> \<open>The path names the directory itself or a place below it.\<close>
  "inside_dir dir p =
     (let d = resolve_dots [] dir; q = resolve_dots [] p
      in take (length d) q = d)"

datatype fs_access = Stat "string list" | Open "string list"

definition serve_specific_log ::
  "(string \<Rightarrow> 'r decoded) \<Rightarrow> string list \<Rightarrow> (string list \<Rightarrow> lookup) \<Rightarrow> string
     \<Rightarrow> (exn + ('r, 'm) reply) \<times> fs_access list" where
  \<comment> \<open>\<open>log_dir\<close> is \<^verbatim>\<open>LOG_DIR\<close>, \<open>fs\<close> the file system. The first result is
      \<open>Inl\<close> when an exception is raised before anything is sent. The second
      result lists the paths the handler touches, in order: \<^verbatim>\<open>exists\<close> is
      evaluated before \<^verbatim>\<open>endswith\<close>, and it raises again every error of
      \<^verbatim>\<open>stat\<close> that does not mean the path is absent.\<close>
  "serve_specific_log loads log_dir fs log_name =
     (let log_path = path_join log_dir log_name;
          sent = [(''Content-Type'', ''application/json''),
                  (''Access-Control-Allow-Origin'', ''*'')]
      in case fs log_path of
           StatError \<Rightarrow> (Inl OSError, [Stat log_path])
         | Absent \<Rightarrow> (Inr (send_error 404 ''Log not found''), [Stat log_path])
         | Present nd \<Rightarrow>
             if \<not> py_endswith log_name ''.jsonl'' then
               (Inr (send_error 404 ''Log not found''), [Stat log_path])
             else
               (case read_node loads nd of
                  Inl e \<Rightarrow>
                    (Inr \<lparr>status = 200, headers = sent, body = NoBody, raised = Some e\<rparr>,
                     [Stat log_path, Open log_path])
                | Inr events \<Rightarrow>
                    (Inr \<lparr>status = 200, headers = sent, body = JsonEvents events,
                          raised = None\<rparr>,
                     [Stat log_path, Open log_path])))"

datatype route = ServeLog | StreamLog | ListLogs | ServeSpecificLog string | Static

definition do_GET :: "string \<Rightarrow> route" where
  \<comment> \<open>The dispatch on the path component of the request target.\<close>
  "do_GET path =
     (if path = ''/api/log'' then ServeLog
      else if path = ''/api/log/stream'' then StreamLog
      else if path = ''/api/logs'' then ListLogs
      else if py_startswith path ''/api/log/'' then
        ServeSpecificLog (last (py_split (CHR ''/'') [] path))
      else Static)"

subsection \<open>Decoding one line\<close>

definition decode_line :: "(string \<Rightarrow> 'r option) \<Rightarrow> string \<Rightarrow> 'r option" where
  \<comment> \<open>What the handlers do with one line: strip it, skip it when nothing is
      left, decode it otherwise. Used to state the theorems.\<close>
  "decode_line loads l = (let line = py_strip l in if line \<noteq> [] then loads line else None)"

fun frame_indices :: "'r frame list \<Rightarrow> nat list" where
  \<comment> \<open>The \<^verbatim>\<open>index\<close> fields of the events of a stream, in order.\<close>
  "frame_indices [] = []"
| "frame_indices (Data i e # fs) = i # frame_indices fs"
| "frame_indices (Keepalive # fs) = frame_indices fs"

fun frame_events :: "'r frame list \<Rightarrow> 'r list" where
  \<comment> \<open>The \<^verbatim>\<open>event\<close> fields of the events of a stream, in order.\<close>
  "frame_events [] = []"
| "frame_events (Data i e # fs) = e # frame_events fs"
| "frame_events (Keepalive # fs) = frame_events fs"

subsection \<open>A decoder for the examples\<close>

text \<open>
  The theorems on concrete logs need one decoder. \<open>py_json_loads\<close> follows the
  grammar \<^verbatim>\<open>json.loads\<close> accepts: objects, arrays, strings with their escapes,
  numbers and the literals, with whitespace between tokens and nothing after the
  value. A string value is the list of its code points, a number with a fraction
  or an exponent keeps its text, and a key set twice keeps its first place and its
  last value, as a \<^verbatim>\<open>dict\<close> does. An integer of more than 4300 digits, the
  interpreter's default limit, raises \<^verbatim>\<open>ValueError\<close> where the scan meets it; the
  depth of nesting at which the interpreter raises \<^verbatim>\<open>RecursionError\<close> is not
  fixed, and the decoder has none. The first argument of the scanners bounds the
  number of nested calls; \<open>py_json_loads\<close> starts them with more than the length of
  the text. \<open>json_loads\<close> is the same decoder for the stream loop.
\<close>

datatype json =
    JNull | JBool bool | JInt int | JFloat string | JString "nat list"
  | JArray "json list" | JObject "(nat list \<times> json) list"

definition json_ws :: "char \<Rightarrow> bool" where
  "json_ws c = (c = CHR '' '' \<or> c = CHR 0x09 \<or> c = CHR 0x0A \<or> c = CHR 0x0D)"

definition hex_val :: "char \<Rightarrow> nat option" where
  "hex_val c =
     (let n = (of_char c :: nat)
      in if 48 \<le> n \<and> n \<le> 57 then Some (n - 48)
         else if 65 \<le> n \<and> n \<le> 70 then Some (n - 55)
         else if 97 \<le> n \<and> n \<le> 102 then Some (n - 87)
         else None)"

definition hex4 :: "string \<Rightarrow> nat option" where
  "hex4 s =
     (case map hex_val s of
        [Some a, Some b, Some c, Some d] \<Rightarrow> Some (((a * 16 + b) * 16 + c) * 16 + d)
      | _ \<Rightarrow> None)"

definition escape_char :: "char \<Rightarrow> nat option" where
  "escape_char c =
     (if c = CHR 0x22 then Some 34 else if c = CHR 0x5C then Some 92
      else if c = CHR ''/'' then Some 47 else if c = CHR ''b'' then Some 8
      else if c = CHR ''f'' then Some 12 else if c = CHR ''n'' then Some 10
      else if c = CHR ''r'' then Some 13 else if c = CHR ''t'' then Some 9
      else None)"

fun scan_string :: "string \<Rightarrow> nat list \<Rightarrow> (nat list \<times> string) option" where
  \<comment> \<open>The text after an opening quote, up to the closing one; two escapes that
      form a surrogate pair give one code point.\<close>
  "scan_string [] acc = None"
| "scan_string (c # cs) acc =
     (if c = CHR 0x22 then Some (acc, cs)
      else if c = CHR 0x5C then
        (case cs of
           [] \<Rightarrow> None
         | e # es \<Rightarrow>
             if e = CHR ''u'' then
               (case hex4 (take 4 es) of
                  None \<Rightarrow> None
                | Some u \<Rightarrow>
                    if 55296 \<le> u \<and> u \<le> 56319 \<and> take 2 (drop 4 es) = [CHR 0x5C, CHR ''u''] then
                      (case hex4 (take 4 (drop 6 es)) of
                         None \<Rightarrow> None
                       | Some u2 \<Rightarrow>
                           if 56320 \<le> u2 \<and> u2 \<le> 57343
                           then scan_string (drop 10 es)
                                  (acc @ [65536 + (u - 55296) * 1024 + (u2 - 56320)])
                           else scan_string (drop 4 es) (acc @ [u]))
                    else scan_string (drop 4 es) (acc @ [u]))
             else (case escape_char e of
                     None \<Rightarrow> None
                   | Some n \<Rightarrow> scan_string es (acc @ [n])))
      else if (of_char c :: nat) < 32 then None
      else scan_string cs (acc @ [of_char c]))"

definition sign_part :: "string \<Rightarrow> string" where
  "sign_part s = (case s of c # cs \<Rightarrow> if c = CHR ''-'' then [c] else [] | [] \<Rightarrow> [])"

definition int_part :: "string \<Rightarrow> string" where
  \<comment> \<open>The digits of an integer part: a single zero, or digits without a leading
      zero.\<close>
  "int_part s =
     (let ds = takeWhile is_digit s
      in if ds = [] then [] else if hd ds = CHR ''0'' then [CHR ''0''] else ds)"

definition frac_part :: "string \<Rightarrow> string" where
  "frac_part s =
     (case s of
        c # cs \<Rightarrow>
          if c = CHR ''.'' \<and> takeWhile is_digit cs \<noteq> [] then c # takeWhile is_digit cs
          else []
      | [] \<Rightarrow> [])"

definition exp_part :: "string \<Rightarrow> string" where
  "exp_part s =
     (case s of
        c # cs \<Rightarrow>
          if c = CHR ''e'' \<or> c = CHR ''E'' then
            (let sg = (case cs of
                         d # _ \<Rightarrow> if d = CHR ''+'' \<or> d = CHR ''-'' then [d] else []
                       | [] \<Rightarrow> []);
                 ed = takeWhile is_digit (drop (length sg) cs)
             in if ed = [] then [] else c # sg @ ed)
          else []
      | [] \<Rightarrow> [])"

definition scan_number :: "string \<Rightarrow> (json \<times> string) decoded" where
  \<comment> \<open>The longest prefix that is a number: a sign, an integer part, then a
      fraction and an exponent where they are complete.\<close>
  "scan_number s =
     (let sg = sign_part s;
          r0 = drop (length sg) s;
          ip = int_part r0;
          r1 = drop (length ip) r0;
          fr = frac_part r1;
          r2 = drop (length fr) r1;
          ex = exp_part r2;
          r3 = drop (length ex) r2
      in if ip = [] then JSONDecodeError
         else if fr = [] \<and> ex = [] then
           (if 4300 < length ip then Uncaught ValueError
            else Decoded (JInt ((if sg = [] then 1 else - 1) * int (decimal ip)), r3))
         else Decoded (JFloat (sg @ ip @ fr @ ex), r3))"

definition dict_set :: "(nat list \<times> json) list \<Rightarrow> nat list \<Rightarrow> json \<Rightarrow> (nat list \<times> json) list" where
  "dict_set d k v =
     (if k \<in> fst ` set d then map (\<lambda>(k', v'). if k' = k then (k', v) else (k', v')) d
      else d @ [(k, v)])"

fun scan_value :: "nat \<Rightarrow> string \<Rightarrow> (json \<times> string) decoded"
  and scan_array :: "nat \<Rightarrow> string \<Rightarrow> json list \<Rightarrow> (json \<times> string) decoded"
  and scan_object ::
    "nat \<Rightarrow> string \<Rightarrow> (nat list \<times> json) list \<Rightarrow> (json \<times> string) decoded"
where
  "scan_value 0 s = JSONDecodeError"
| "scan_value (Suc n) s =
     (case s of
        [] \<Rightarrow> JSONDecodeError
      | c # cs \<Rightarrow>
          if c = CHR 0x22 then
            (case scan_string cs [] of
               None \<Rightarrow> JSONDecodeError
             | Some (u, r) \<Rightarrow> Decoded (JString u, r))
          else if c = CHR ''{'' then
            (let r = dropWhile json_ws cs
             in case r of
                  [] \<Rightarrow> JSONDecodeError
                | d # ds \<Rightarrow>
                    if d = CHR ''}'' then Decoded (JObject [], ds) else scan_object n r [])
          else if c = CHR ''['' then
            (let r = dropWhile json_ws cs
             in case r of
                  [] \<Rightarrow> JSONDecodeError
                | d # ds \<Rightarrow>
                    if d = CHR '']'' then Decoded (JArray [], ds) else scan_array n r [])
          else if py_startswith s ''null'' then Decoded (JNull, drop 4 s)
          else if py_startswith s ''true'' then Decoded (JBool True, drop 4 s)
          else if py_startswith s ''false'' then Decoded (JBool False, drop 5 s)
          else (case scan_number s of
                  Decoded res \<Rightarrow> Decoded res
                | Uncaught e \<Rightarrow> Uncaught e
                | JSONDecodeError \<Rightarrow>
                    if py_startswith s ''NaN'' then Decoded (JFloat ''NaN'', drop 3 s)
                    else if py_startswith s ''Infinity''
                      then Decoded (JFloat ''Infinity'', drop 8 s)
                    else if py_startswith s ''-Infinity''
                      then Decoded (JFloat ''-Infinity'', drop 9 s)
                    else JSONDecodeError))"
| "scan_array 0 s acc = JSONDecodeError"
| "scan_array (Suc n) s acc =
     (case scan_value n s of
        JSONDecodeError \<Rightarrow> JSONDecodeError
      | Uncaught e \<Rightarrow> Uncaught e
      | Decoded (v, r) \<Rightarrow>
          (case dropWhile json_ws r of
             [] \<Rightarrow> JSONDecodeError
           | d # ds \<Rightarrow>
               if d = CHR '']'' then Decoded (JArray (acc @ [v]), ds)
               else if d = CHR '','' then scan_array n (dropWhile json_ws ds) (acc @ [v])
               else JSONDecodeError))"
| "scan_object 0 s acc = JSONDecodeError"
| "scan_object (Suc n) s acc =
     (case s of
        [] \<Rightarrow> JSONDecodeError
      | q # qs \<Rightarrow>
          if q \<noteq> CHR 0x22 then JSONDecodeError
          else
            (case scan_string qs [] of
               None \<Rightarrow> JSONDecodeError
             | Some (k, r) \<Rightarrow>
                 (case dropWhile json_ws r of
                    [] \<Rightarrow> JSONDecodeError
                  | c # cs \<Rightarrow>
                      if c \<noteq> CHR '':'' then JSONDecodeError
                      else
                        (case scan_value n (dropWhile json_ws cs) of
                           JSONDecodeError \<Rightarrow> JSONDecodeError
                         | Uncaught e \<Rightarrow> Uncaught e
                         | Decoded (v, r') \<Rightarrow>
                             (case dropWhile json_ws r' of
                                [] \<Rightarrow> JSONDecodeError
                              | d # ds \<Rightarrow>
                                  if d = CHR ''}'' then Decoded (JObject (dict_set acc k v), ds)
                                  else if d = CHR '','' then
                                    scan_object n (dropWhile json_ws ds) (dict_set acc k v)
                                  else JSONDecodeError)))))"

definition py_json_loads :: "string \<Rightarrow> json decoded" where
  "py_json_loads s =
     (case scan_value (Suc (length s)) (dropWhile json_ws s) of
        JSONDecodeError \<Rightarrow> JSONDecodeError
      | Uncaught e \<Rightarrow> Uncaught e
      | Decoded (v, r) \<Rightarrow> if dropWhile json_ws r = [] then Decoded v else JSONDecodeError)"

definition json_loads :: "string \<Rightarrow> json option" where
  "json_loads s = quiet (py_json_loads s)"

definition no_eol :: "string \<Rightarrow> bool" where
  \<comment> \<open>The text holds no line terminator.\<close>
  "no_eol l = list_all (\<lambda>c. c \<noteq> CHR 0x0A \<and> c \<noteq> CHR 0x0D) l"

fun new_frames :: "(string \<Rightarrow> 'r option) \<Rightarrow> nat \<Rightarrow> string list \<Rightarrow> int \<Rightarrow> 'r frame list" where
  \<comment> \<open>One event for every line that decodes and whose index, counted from \<open>i\<close>
      over all lines, is at least \<open>off\<close>. Used to state the theorems.\<close>
  "new_frames loads i [] off = []"
| "new_frames loads i (l # ls) off =
     (if off \<le> int i then (case decode_line loads l of Some e \<Rightarrow> [Data i e] | None \<Rightarrow> [])
      else [])
     @ new_frames loads (Suc i) ls off"

definition unchanged :: "file_obs option \<Rightarrow> cursor \<Rightarrow> bool" where
  \<comment> \<open>The pass will not read the log: it is absent, or its size is the one the
      cursor recorded.\<close>
  "unchanged log c = (case log of None \<Rightarrow> True | Some f \<Rightarrow> st_size f = last_size c)"

definition rec_a :: "int \<Rightarrow> json" where
  \<comment> \<open>The record \<^verbatim>\<open>{"a": n}\<close>.\<close>
  "rec_a n = JObject [([97], JInt n)]"

definition scenario_log :: file_obs where
  \<comment> \<open>The log of the scenario: a record, an empty line, a record.\<close>
  \<open>scenario_log =
     \<lparr>st_size = 17,
      content = ''{"a":1}'' @ CHR 0x0A # CHR 0x0A # ''{"a":2}'' @ [CHR 0x0A]\<rparr>\<close>

definition one_record_log :: file_obs where
  \<comment> \<open>A log of one line, a record.\<close>
  \<open>one_record_log = \<lparr>st_size = 8, content = ''{"a":1}'' @ [CHR 0x0A]\<rparr>\<close>

definition late_record_log :: file_obs where
  \<comment> \<open>A log of two empty lines and a record.\<close>
  \<open>late_record_log =
     \<lparr>st_size = 10, content = CHR 0x0A # CHR 0x0A # ''{"a":1}'' @ [CHR 0x0A]\<rparr>\<close>

definition partial_log :: file_obs where
  \<comment> \<open>A record, then a line caught half written.\<close>
  \<open>partial_log = \<lparr>st_size = 13, content = ''{"a":1}'' @ CHR 0x0A # ''{"a":''\<rparr>\<close>

definition completed_log :: file_obs where
  \<comment> \<open>The same log with its second line complete.\<close>
  \<open>completed_log =
     \<lparr>st_size = 16, content = ''{"a":1}'' @ CHR 0x0A # ''{"a":2}'' @ [CHR 0x0A]\<rparr>\<close>

definition overtaken_log :: file_obs where
  \<comment> \<open>The second line still malformed, a record after it.\<close>
  \<open>overtaken_log =
     \<lparr>st_size = 22,
      content = ''{"a":1}'' @ CHR 0x0A # ''{"a":'' @ CHR 0x0A # ''{"a":3}'' @ [CHR 0x0A]\<rparr>\<close>

definition repaired_log :: file_obs where
  \<comment> \<open>Three records, the second line now well-formed.\<close>
  \<open>repaired_log =
     \<lparr>st_size = 24,
      content = ''{"a":1}'' @ CHR 0x0A # ''{"a":2}'' @ CHR 0x0A # ''{"a":3}'' @ [CHR 0x0A]\<rparr>\<close>

definition example_dir :: "nat dir_entry list" where
  \<comment> \<open>A log directory: two archived logs and another file.\<close>
  "example_dir =
     [\<lparr>d_name = ''ralph_1.jsonl'', d_size = 10, d_mtime = 1\<rparr>,
      \<lparr>d_name = ''notes.txt'', d_size = 3, d_mtime = 5\<rparr>,
      \<lparr>d_name = ''ralph_2.jsonl'', d_size = 20, d_mtime = 2\<rparr>]"

definition example_log_dir :: "string list" where
  "example_log_dir = [''srv'', ''ralph-logs'']"

definition node_at :: "(string list \<times> node) list \<Rightarrow> string list \<Rightarrow> node option" where
  \<comment> \<open>What a tree, given as the list of its places below the root, holds at a
      place.\<close>
  "node_at t p = (if p = [] then Some Directory else map_of t p)"

fun walk :: "(string list \<times> node) list \<Rightarrow> string list \<Rightarrow> string list \<Rightarrow> lookup" where
  \<comment> \<open>Following a path from the place \<open>cur\<close>, component by component: each
      step needs a directory to step from, \<^verbatim>\<open>..\<close> steps to the parent, and a
      component of more than 255 characters is an error of \<^verbatim>\<open>stat\<close> that does not
      mean the path is absent.\<close>
  "walk t cur [] = (case node_at t cur of None \<Rightarrow> Absent | Some nd \<Rightarrow> Present nd)"
| "walk t cur (p # ps) =
     (case node_at t cur of
        Some Directory \<Rightarrow>
          if 255 < length p then StatError
          else walk t (if p = ''..'' then butlast cur else cur @ [p]) ps
      | _ \<Rightarrow> Absent)"

definition archive_fs :: "string list \<Rightarrow> lookup" where
  \<comment> \<open>A file system that holds the log directory, with one archived log and
      another file in it.\<close>
  "archive_fs p =
     walk [([''srv''], Directory),
           ([''srv'', ''ralph-logs''], Directory),
           ([''srv'', ''ralph-logs'', ''ralph_1.jsonl''], File one_record_log),
           ([''srv'', ''ralph-logs'', ''notes.txt''], File one_record_log)] [] p"

definition secret_fs :: "string list \<Rightarrow> lookup" where
  \<comment> \<open>The same file system with one more file, beside the log directory.\<close>
  "secret_fs p =
     walk [([''srv''], Directory),
           ([''srv'', ''ralph-logs''], Directory),
           ([''srv'', ''ralph-logs'', ''ralph_1.jsonl''], File one_record_log),
           ([''srv'', ''ralph-logs'', ''notes.txt''], File one_record_log),
           ([''srv'', ''secret.jsonl''], File one_record_log)] [] p"

definition digits_line :: string where
  \<comment> \<open>An array left open after a numeral of 4301 digits.\<close>
  "digits_line = CHR ''['' # replicate 4301 (CHR ''1'')"

definition digits_log :: file_obs where
  \<comment> \<open>A record, the line above, a record.\<close>
  \<open>digits_log =
     \<lparr>st_size = 4319,
      content = ''{"a":1}'' @ CHR 0x0A # digits_line @ CHR 0x0A # ''{"a":2}'' @ [CHR 0x0A]\<rparr>\<close>

definition digits_fs :: "string list \<Rightarrow> lookup" where
  \<comment> \<open>A file system whose archived log is that log.\<close>
  "digits_fs p =
     walk [([''srv''], Directory),
           ([''srv'', ''ralph-logs''], Directory),
           ([''srv'', ''ralph-logs'', ''ralph_1.jsonl''], File digits_log)] [] p"

definition long_name :: string where
  \<comment> \<open>A name longer than a file system allows a name to be.\<close>
  "long_name = replicate 300 (CHR ''a'') @ ''.jsonl''"

section \<open>Properties\<close>

subsection \<open>Lines and stripping\<close>

lemma readlines_from_line:
  "no_eol l \<Longrightarrow>
   readlines_from cur (l @ CHR 0x0A # rest) = (cur @ l @ [CHR 0x0A]) # readlines_from [] rest"
proof (induction l arbitrary: cur)
  case Nil
  show ?case by (cases rest) simp_all
next
  case (Cons c l)
  from Cons.prems have c: "c \<noteq> CHR 0x0A" "c \<noteq> CHR 0x0D" and l: "no_eol l"
    by (simp_all add: no_eol_def)
  obtain d ds where e: "l @ CHR 0x0A # rest = d # ds" by (cases l) simp_all
  have "readlines_from cur (c # l @ CHR 0x0A # rest)
          = readlines_from (cur @ [c]) (l @ CHR 0x0A # rest)"
    unfolding e using c by simp
  also have "\<dots> = ((cur @ [c]) @ l @ [CHR 0x0A]) # readlines_from [] rest"
    by (rule Cons.IH [OF l])
  finally show ?case by simp
qed

lemma readlines_line:
  "no_eol l \<Longrightarrow> readlines (l @ CHR 0x0A # rest) = (l @ [CHR 0x0A]) # readlines rest"
  using readlines_from_line [of l "[]" rest] by (simp add: readlines_def)

lemma readlines_Nil: "readlines [] = []"
  by (simp add: readlines_def)

lemma dropWhile_all: "\<forall>x\<in>set xs. P x \<Longrightarrow> dropWhile P xs = []"
  by (induction xs) auto

lemma py_strip_snoc:
  assumes "py_isspace c"
  shows "py_strip (l @ [c]) = py_strip l"
proof (cases "\<forall>x\<in>set l. py_isspace x")
  case True
  have "\<forall>x\<in>set (l @ [c]). py_isspace x" using True assms by simp
  then have a: "dropWhile py_isspace (l @ [c]) = []" by (rule dropWhile_all)
  have b: "dropWhile py_isspace l = []" using True by (rule dropWhile_all)
  show ?thesis unfolding py_strip_def a b ..
next
  case False
  then obtain x where "x \<in> set l" "\<not> py_isspace x" by blast
  then have "dropWhile py_isspace (l @ [c]) = dropWhile py_isspace l @ [c]"
    by (rule dropWhile_append1)
  then show ?thesis using assms by (simp add: py_strip_def)
qed

lemma decode_line_eol: "decode_line loads (l @ [CHR 0x0A]) = decode_line loads l"
  by (simp add: decode_line_def py_strip_snoc py_isspace_def)

subsection \<open>The snapshot loop\<close>

lemma collect_events_eq:
  "collect_events loads ls evs = evs @ List.map_filter (decode_line loads) ls"
  by (induction ls arbitrary: evs)
     (auto simp: decode_line_def List.map_filter_simps Let_def split: option.splits)

lemma map_filter_append:
  "List.map_filter g (xs @ ys) = List.map_filter g xs @ List.map_filter g ys"
  by (simp add: List.map_filter_def)

subsection \<open>The stream loop\<close>

lemma send_new_lines_mono: "off \<le> snd (send_new_lines loads i ls off)"
proof (induction ls arbitrary: i off)
  case Nil
  show ?case by simp
next
  case (Cons l ls)
  have a: "int i + 1 \<le> snd (send_new_lines loads (Suc i) ls (int i + 1))" by (rule Cons.IH)
  have b: "off \<le> snd (send_new_lines loads (Suc i) ls off)" by (rule Cons.IH)
  show ?case using a b by (auto simp: Let_def split: option.splits prod.splits)
qed

lemma new_frames_low:
  "off \<le> int i \<Longrightarrow> off' \<le> int i \<Longrightarrow> new_frames loads i ls off = new_frames loads i ls off'"
  by (induction ls arbitrary: i) auto

lemma send_new_lines_frames: "fst (send_new_lines loads i ls off) = new_frames loads i ls off"
proof (induction ls arbitrary: i off)
  case Nil
  show ?case by simp
next
  case (Cons l ls)
  have e: "new_frames loads (Suc i) ls (int i + 1) = new_frames loads (Suc i) ls off"
    if "off \<le> int i"
    using that by (intro new_frames_low) simp_all
  show ?case using e
    by (auto simp: Let_def decode_line_def Cons.IH [symmetric] split: option.splits prod.splits)
qed

lemma send_new_lines_offset:
  "snd (send_new_lines loads i ls off) =
     (case frame_indices (fst (send_new_lines loads i ls off)) of
        [] \<Rightarrow> off
      | ks \<Rightarrow> int (last ks) + 1)"
proof (induction ls arbitrary: i off)
  case Nil
  show ?case by simp
next
  case (Cons l ls)
  show ?case
    using Cons.IH [of "Suc i" off] Cons.IH [of "Suc i" "int i + 1"]
    by (auto simp: Let_def split: option.splits prod.splits list.splits)
qed

lemma new_frames_mem:
  "Data k e \<in> set (new_frames loads i ls off) \<longleftrightarrow>
     i \<le> k \<and> k < i + length ls \<and> off \<le> int k \<and> decode_line loads (ls ! (k - i)) = Some e"
proof (induction ls arbitrary: i)
  case Nil
  show ?case by simp
next
  case (Cons l ls)
  have "Data k e \<in> set (new_frames loads i (l # ls) off) \<longleftrightarrow>
          (off \<le> int i \<and> decode_line loads l = Some e \<and> k = i)
          \<or> Data k e \<in> set (new_frames loads (Suc i) ls off)"
    by (cases "off \<le> int i"; cases "decode_line loads l") auto
  also have "\<dots> \<longleftrightarrow>
          (off \<le> int i \<and> decode_line loads l = Some e \<and> k = i)
          \<or> (Suc i \<le> k \<and> k < Suc i + length ls \<and> off \<le> int k
              \<and> decode_line loads (ls ! (k - Suc i)) = Some e)"
    by (simp only: Cons.IH)
  also have "\<dots> \<longleftrightarrow>
          i \<le> k \<and> k < i + length (l # ls) \<and> off \<le> int k
          \<and> decode_line loads ((l # ls) ! (k - i)) = Some e"
  proof (cases "k = i")
    case True
    then show ?thesis by auto
  next
    case False
    have "(l # ls) ! (k - i) = ls ! (k - Suc i)" if "i \<le> k"
      using that False by (simp add: nth_Cons')
    then show ?thesis using False by auto
  qed
  finally show ?case .
qed

lemma new_frames_beyond: "int (i + length ls) \<le> off \<Longrightarrow> new_frames loads i ls off = []"
  by (induction ls arbitrary: i) auto

lemma frame_indices_mem: "k \<in> set (frame_indices fs) \<longleftrightarrow> (\<exists>e. Data k e \<in> set fs)"
  by (induction fs rule: frame_indices.induct) auto

lemma poll_reads:
  "st_size f \<noteq> last_size c \<Longrightarrow>
   poll loads (Some f) c =
     (new_frames loads 0 (readlines (content f)) (offset c),
      \<lparr>offset = (case frame_indices (new_frames loads 0 (readlines (content f)) (offset c)) of
                   [] \<Rightarrow> offset c | ks \<Rightarrow> int (last ks) + 1),
       last_size = st_size f\<rparr>)"
  using send_new_lines_frames [of loads 0 "readlines (content f)" "offset c"]
        send_new_lines_offset [of loads 0 "readlines (content f)" "offset c"]
  by (simp add: poll_def case_prod_beta)

lemma poll_idle: "unchanged log c \<Longrightarrow> poll loads log c = ([], c)"
  by (simp add: poll_def unchanged_def split: option.splits)

lemma poll_unchanged_after: "unchanged log (snd (poll loads log c))"
  by (simp add: poll_def unchanged_def case_prod_beta split: option.splits)

lemma poll_offset_mono: "offset c \<le> offset (snd (poll loads log c))"
  using send_new_lines_mono [of "offset c" loads 0]
  by (simp add: poll_def case_prod_beta split: option.splits)

lemma stream_loop_append:
  "stream_loop loads (xs @ ys) c =
     (let (o1, c1) = stream_loop loads xs c; (o2, c2) = stream_loop loads ys c1
      in (o1 @ o2, c2))"
  by (induction xs arbitrary: c) (simp_all add: Let_def case_prod_beta)

lemma stream_loop_mono: "offset c \<le> offset (snd (stream_loop loads logs c))"
proof (induction logs arbitrary: c)
  case Nil
  show ?case by simp
next
  case (Cons log logs)
  have "offset c \<le> offset (snd (poll loads log c))" by (rule poll_offset_mono)
  also have "\<dots> \<le> offset (snd (stream_loop loads logs (snd (poll loads log c))))"
    by (rule Cons.IH)
  finally show ?case by (simp add: stream_iter_def Let_def case_prod_beta)
qed

lemma stream_loop_idle:
  "list_all (\<lambda>l. unchanged l c) logs \<Longrightarrow> snd (stream_loop loads logs c) = c"
  by (induction logs) (simp_all add: stream_iter_def poll_idle Let_def case_prod_beta)

lemma frame_indices_new_frames_bound:
  "k \<in> set (frame_indices (new_frames loads i ls off)) \<Longrightarrow> k < i + length ls"
  by (auto simp: frame_indices_mem new_frames_mem)

lemma poll_offset_bound:
  "offset (snd (poll loads (Some f) c)) \<le> max (offset c) (int (length (readlines (content f))))"
proof (cases "st_size f = last_size c")
  case True
  then show ?thesis by (simp add: poll_def)
next
  case False
  let ?ks = "frame_indices (new_frames loads 0 (readlines (content f)) (offset c))"
  show ?thesis
  proof (cases ?ks)
    case Nil
    then show ?thesis using False by (simp add: poll_reads)
  next
    case (Cons a as)
    then have "last ?ks \<in> set ?ks" by simp
    then have "last ?ks < length (readlines (content f))"
      using frame_indices_new_frames_bound [of "last ?ks" loads 0] by simp
    then show ?thesis using False Cons by (simp add: poll_reads)
  qed
qed

lemma poll_offset_eq:
  "offset (snd (poll loads log c)) =
     (case frame_indices (fst (poll loads log c)) of [] \<Rightarrow> offset c | ks \<Rightarrow> int (last ks) + 1)"
proof (cases "unchanged log c")
  case True
  then show ?thesis by (simp add: poll_idle)
next
  case False
  then obtain f where "log = Some f" "st_size f \<noteq> last_size c"
    by (auto simp: unchanged_def split: option.splits)
  then show ?thesis by (simp add: poll_reads)
qed

lemma poll_advance_emitted:
  assumes "offset (snd (poll loads log c)) \<noteq> offset c"
  shows "\<exists>f j e. log = Some f \<and> offset (snd (poll loads log c)) = int j + 1
           \<and> Data j e \<in> set (fst (poll loads log c))
           \<and> j < length (readlines (content f))
           \<and> decode_line loads (readlines (content f) ! j) = Some e"
proof -
  have nu: "\<not> unchanged log c" using assms by (auto simp: poll_idle)
  then obtain f where f: "log = Some f" "st_size f \<noteq> last_size c"
    by (auto simp: unchanged_def split: option.splits)
  let ?out = "new_frames loads 0 (readlines (content f)) (offset c)"
  have out: "fst (poll loads log c) = ?out" using f by (simp add: poll_reads)
  obtain a as where ks: "frame_indices ?out = a # as"
    using assms f by (cases "frame_indices ?out") (simp_all add: poll_reads)
  let ?j = "last (frame_indices ?out)"
  have off: "offset (snd (poll loads log c)) = int ?j + 1"
    using f ks by (simp add: poll_reads)
  have "?j \<in> set (frame_indices ?out)" using ks by simp
  then obtain e where e: "Data ?j e \<in> set ?out" by (auto simp: frame_indices_mem)
  then have "?j < length (readlines (content f))"
    "decode_line loads (readlines (content f) ! ?j) = Some e"
    by (simp_all add: new_frames_mem)
  then show ?thesis using f off e out by auto
qed



lemma sorted_reverse_desc: "sorted (rev (map key (sorted_reverse key xs)))"
  by (simp add: sorted_reverse_def rev_map [symmetric])

lemma set_sorted_reverse: "set (sorted_reverse key xs) = set xs"
  by (simp add: sorted_reverse_def)

lemma length_sorted_reverse: "length (sorted_reverse key xs) = length xs"
  by (simp add: sorted_reverse_def)

lemma py_split_nonempty: "py_split sep cur s \<noteq> []"
  by (induction s arbitrary: cur) simp_all

lemma py_split_last_no_sep: "sep \<notin> set cur \<Longrightarrow> sep \<notin> set (last (py_split sep cur s))"
  by (induction s arbitrary: cur) (simp_all add: py_split_nonempty)

lemma py_split_no_sep: "sep \<notin> set s \<Longrightarrow> py_split sep cur s = [cur @ s]"
  by (induction s arbitrary: cur) auto

lemma resolve_dots_snoc:
  "n \<noteq> ''..'' \<Longrightarrow> resolve_dots seen (xs @ [n]) = resolve_dots seen xs @ [n]"
  by (induction xs arbitrary: seen) simp_all

lemma path_join_segment:
  assumes "CHR ''/'' \<notin> set n"
  shows "path_join ld n = (if n = [] \<or> n = ''.'' then ld else ld @ [n])"
proof -
  have "\<not> py_startswith n ''/''"
    using assms by (cases n) (auto simp: py_startswith_def)
  then show ?thesis
    using assms by (simp add: path_join_def path_parts_def py_split_no_sep)
qed

lemma inside_dir_segment:
  assumes "CHR ''/'' \<notin> set n" "n \<noteq> ''..''"
  shows "inside_dir ld (path_join ld n)"
  using assms by (simp add: path_join_segment inside_dir_def Let_def resolve_dots_snoc)

subsection \<open>Exceptions the snapshot loop does not catch\<close>

lemma read_events_quiet:
  "\<forall>l \<in> set ls. \<forall>e. loads (py_strip l) \<noteq> Uncaught e \<Longrightarrow>
   read_events loads ls evs = Inr (collect_events (\<lambda>s. quiet (loads s)) ls evs)"
proof (induction ls arbitrary: evs)
  case Nil
  show ?case by simp
next
  case (Cons l ls)
  have ih: "read_events loads ls evs' = Inr (collect_events (\<lambda>s. quiet (loads s)) ls evs')"
    for evs'
    using Cons.prems by (intro Cons.IH) simp
  have "\<forall>e. loads (py_strip l) \<noteq> Uncaught e" using Cons.prems by simp
  then show ?case
    by (cases "loads (py_strip l)") (simp_all add: ih quiet_def Let_def)
qed

lemma read_events_uncaught:
  assumes "\<forall>l \<in> set xs. \<forall>e. loads (py_strip l) \<noteq> Uncaught e"
    and "py_strip l \<noteq> []" "loads (py_strip l) = Uncaught e"
  shows "read_events loads (xs @ l # ys) evs = Inl e"
  using assms
proof (induction xs arbitrary: evs)
  case Nil
  then show ?case by (simp add: Let_def)
next
  case (Cons x xs)
  have ih: "read_events loads (xs @ l # ys) evs' = Inl e" for evs'
    using Cons.prems by (intro Cons.IH) simp_all
  have "\<forall>e. loads (py_strip x) \<noteq> Uncaught e" using Cons.prems by simp
  then show ?case
    by (cases "loads (py_strip x)") (simp_all add: ih Let_def)
qed

lemma py_strip_id:
  assumes "v \<noteq> []" "\<not> py_isspace (hd v)" "\<not> py_isspace (last v)"
  shows "py_strip v = v"
proof -
  have a: "dropWhile py_isspace v = v" using assms(1,2) by (cases v) simp_all
  have "rev v \<noteq> []" "\<not> py_isspace (hd (rev v))" using assms(1,3) by (simp_all add: hd_rev)
  then have b: "dropWhile py_isspace (rev v) = rev v" by (cases "rev v") simp_all
  show ?thesis unfolding py_strip_def a b by simp
qed

lemma scan_number_ones:
  assumes "4300 < n"
  shows "scan_number (replicate n (CHR ''1'')) = Uncaught ValueError"
proof -
  obtain m where n: "n = Suc m" using assms by (cases n) auto
  have d: "is_digit (CHR ''1'')" by (simp add: is_digit_def)
  have s: "sign_part (replicate n (CHR ''1'')) = []" by (simp add: sign_part_def n)
  have t: "takeWhile is_digit (replicate n (CHR ''1'')) = replicate n (CHR ''1'')"
    using d by (simp add: takeWhile_replicate)
  have i: "int_part (replicate n (CHR ''1'')) = replicate n (CHR ''1'')"
    unfolding int_part_def t Let_def by (simp add: n)
  have f: "frac_part [] = []" "exp_part [] = []" by (simp_all add: frac_part_def exp_part_def)
  show ?thesis
    unfolding scan_number_def Let_def s by (simp add: i f assms) (simp add: n)
qed

lemma scan_value_ones:
  assumes "4300 < n"
  shows "scan_value (Suc k) (replicate n (CHR ''1'')) = Uncaught ValueError"
proof -
  obtain m where n: "n = Suc m" using assms by (cases n) auto
  have r: "replicate n (CHR ''1'') = CHR ''1'' # replicate m (CHR ''1'')" by (simp add: n)
  have p: "\<not> py_startswith (CHR ''1'' # xs) ''null''" "\<not> py_startswith (CHR ''1'' # xs) ''true''"
    "\<not> py_startswith (CHR ''1'' # xs) ''false''" for xs
    by (simp_all add: py_startswith_def)
  have "scan_value (Suc k) (CHR ''1'' # replicate m (CHR ''1''))
          = (case scan_number (CHR ''1'' # replicate m (CHR ''1'')) of
               Decoded res \<Rightarrow> Decoded res
             | Uncaught e \<Rightarrow> Uncaught e
             | JSONDecodeError \<Rightarrow> JSONDecodeError)"
    by (simp add: p py_startswith_def)
  then show ?thesis
    using scan_number_ones [OF assms] unfolding r by simp
qed

lemma digits_line_raises: "py_json_loads digits_line = Uncaught ValueError"
proof -
  define n :: nat where "n = 4301"
  have n: "4300 < n" by (simp add: n_def)
  obtain m where m: "n = Suc m" using n by (cases n) auto
  have w: "\<not> json_ws (CHR ''['')" "\<not> json_ws (CHR ''1'')" by (simp_all add: json_ws_def)
  have dl: "digits_line = CHR ''['' # replicate n (CHR ''1'')" by (simp add: digits_line_def n_def)
  have dw: "dropWhile json_ws (replicate n (CHR ''1'')) = replicate n (CHR ''1'')"
    using w by (simp add: dropWhile_replicate)
  have r: "replicate n (CHR ''1'') = CHR ''1'' # replicate m (CHR ''1'')" by (simp add: m)
  have a: "scan_array (Suc (Suc m)) (replicate n (CHR ''1'')) [] = Uncaught ValueError"
    by (subst scan_array.simps)
       (simp add: scan_value_ones [OF n] del: scan_value.simps scan_array.simps scan_object.simps)
  have "scan_value (Suc (Suc (Suc m))) (CHR ''['' # replicate n (CHR ''1''))
          = scan_array (Suc (Suc m)) (replicate n (CHR ''1'')) []"
    by (subst scan_value.simps)
       (simp add: r w del: scan_value.simps scan_array.simps scan_object.simps)
  then have v: "scan_value (Suc (length digits_line)) digits_line = Uncaught ValueError"
    using a by (simp add: dl m del: scan_value.simps scan_array.simps scan_object.simps)
  have "dropWhile json_ws digits_line = digits_line" using w by (simp add: dl)
  then show ?thesis unfolding py_json_loads_def using v by simp
qed

lemma no_eol_digits_line: "no_eol digits_line"
  by (simp add: no_eol_def digits_line_def list_all_iff)

lemma py_strip_digits_line: "py_strip (digits_line @ [CHR 0x0A]) = digits_line"
proof -
  have "py_strip (digits_line @ [CHR 0x0A]) = py_strip digits_line"
    by (rule py_strip_snoc) (simp add: py_isspace_def)
  also have "\<dots> = digits_line"
    by (rule py_strip_id) (simp_all add: digits_line_def py_isspace_def)
  finally show ?thesis .
qed

lemma readlines_digits_log:
  \<open>readlines (content digits_log)
     = [''{"a":1}'' @ [CHR 0x0A], digits_line @ [CHR 0x0A], ''{"a":2}'' @ [CHR 0x0A]]\<close>
proof -
  have a: \<open>no_eol ''{"a":1}''\<close> \<open>no_eol ''{"a":2}''\<close> by (simp_all add: no_eol_def)
  show ?thesis
    unfolding digits_log_def
    by (simp add: readlines_line [OF a(1)] readlines_line [OF no_eol_digits_line]
          readlines_line [OF a(2)] readlines_Nil del: append.simps)
qed

lemma read_digits_log:
  "read_events py_json_loads (readlines (content digits_log)) [] = Inl ValueError"
proof -
  have d: \<open>py_json_loads (py_strip (''{"a":1}'' @ [CHR 0x0A])) = Decoded (rec_a 1)\<close>
    by code_simp
  have e: \<open>\<forall>l \<in> set [''{"a":1}'' @ [CHR 0x0A]]. \<forall>e. py_json_loads (py_strip l) \<noteq> Uncaught e\<close>
    using d by simp
  have n: "py_strip (digits_line @ [CHR 0x0A]) \<noteq> []"
    unfolding py_strip_digits_line by (simp add: digits_line_def)
  have u: "py_json_loads (py_strip (digits_line @ [CHR 0x0A])) = Uncaught ValueError"
    unfolding py_strip_digits_line by (rule digits_line_raises)
  show ?thesis
    unfolding readlines_digits_log
    using read_events_uncaught [OF e n u, of \<open>[''{"a":2}'' @ [CHR 0x0A]]\<close> "[]"]
    by simp
qed

subsection \<open>The conversion of the offset\<close>













section \<open>The claims\<close>

subsection \<open>The scenario: a record, an empty line, a record\<close>

text \<open>
  Claim C1, as the code has it. For the log whose lines are \<^verbatim>\<open>{"a":1}\<close>, an empty
  line and \<^verbatim>\<open>{"a":2}\<close>, the snapshot is exactly the two records, in order, and a
  stream session started at offset 0 writes exactly two events, with those two
  records as payloads; their index fields are 0 and 2, the positions of the lines
  in the file, the empty line counted.
\<close>

theorem scenario_line_indexed:
  "body (serve_log py_json_loads (Present (File scenario_log)) :: (json, unit) reply)
     = JsonEvents [rec_a 1, rec_a 2]
   \<and> body (stream_log json_loads (Some ''0'') [Some scenario_log] :: (json, unit) reply)
     = EventStream [Data 0 (rec_a 1), Data 2 (rec_a 2), Keepalive]
   \<and> body (stream_log json_loads None [Some scenario_log, Some scenario_log] :: (json, unit) reply)
     = EventStream [Data 0 (rec_a 1), Data 2 (rec_a 2), Keepalive, Keepalive]"
  by code_simp

text \<open>
  Claim C1 as stated fails on the same log: the index fields of the two events are
  not 0 and 1.
\<close>

theorem scenario_indices_counterexample:
  "frame_indices (fst (poll json_loads (Some scenario_log) \<lparr>offset = 0, last_size = 0\<rparr>)) \<noteq> [0, 1]"
  by code_simp

subsection \<open>The offset from one poll to the next\<close>

text \<open>
  Claim C2, as the code has it. Whatever a session observes, growing log or not,
  the offset never decreases, neither over one poll nor from any pass of the loop to
  a later one. After a poll the offset is the one before it when the poll wrote no
  event, and otherwise one more than the index of the last event written, where the
  index of a line counts every line before it, blank and malformed ones included.
  A poll that reads the log writes one event for each line that decodes at or after
  the offset, and the offset it leaves is at most the larger of the offset before
  and the number of lines.
\<close>

theorem offset_never_decreases:
  "offset c \<le> offset (snd (poll loads log c))
   \<and> offset (snd (stream_loop loads logs c)) \<le> offset (snd (stream_loop loads (logs @ later) c))
   \<and> offset (snd (poll loads log c))
       = (case frame_indices (fst (poll loads log c)) of
            [] \<Rightarrow> offset c
          | ks \<Rightarrow> int (last ks) + 1)
   \<and> (\<forall>f. log = Some f \<and> st_size f \<noteq> last_size c \<longrightarrow>
          fst (poll loads log c) = new_frames loads 0 (readlines (content f)) (offset c))
   \<and> (\<forall>f. log = Some f \<longrightarrow>
          offset (snd (poll loads log c))
            \<le> max (offset c) (int (length (readlines (content f)))))"
proof -
  have "offset (snd (stream_loop loads logs c))
          \<le> offset (snd (stream_loop loads later (snd (stream_loop loads logs c))))"
    by (rule stream_loop_mono)
  then have "offset (snd (stream_loop loads logs c))
          \<le> offset (snd (stream_loop loads (logs @ later) c))"
    by (simp add: stream_loop_append Let_def case_prod_beta)
  then show ?thesis
    using poll_offset_mono [of c loads log] poll_offset_eq [of loads log c]
    by (auto simp: poll_reads poll_offset_bound)
qed

theorem offset_never_decreases_witness:
  "offset (snd (poll json_loads (Some scenario_log) \<lparr>offset = 0, last_size = 0\<rparr>)) = 3
   \<and> fst (poll json_loads (Some scenario_log) \<lparr>offset = 0, last_size = 0\<rparr>)
       = new_frames json_loads 0 (readlines (content scenario_log)) 0"
proof -
  have a: "frame_indices (fst (poll json_loads (Some scenario_log) \<lparr>offset = 0, last_size = 0\<rparr>))
             = [0, 2]"
    by code_simp
  have b: "st_size scenario_log \<noteq> last_size \<lparr>offset = 0, last_size = 0\<rparr>"
    by (simp add: scenario_log_def)
  show ?thesis
    using offset_never_decreases [of "\<lparr>offset = 0, last_size = 0\<rparr>" json_loads "Some scenario_log" "[]" "[]"] a b
    by simp
qed

text \<open>
  Claim C2 as stated fails: after one poll of the scenario log from offset 0 the
  offset is 3, while the log holds 2 valid records.
\<close>

theorem offset_exceeds_record_count:
  "offset (snd (poll json_loads (Some scenario_log) \<lparr>offset = 0, last_size = 0\<rparr>)) = 3
   \<and> length (collect_events json_loads (readlines (content scenario_log)) []) = 2"
  by code_simp

subsection \<open>A log shorter than the offset\<close>

text \<open>
  Claim C3, as the code has it. When a poll observes a size other than the recorded
  one and the log has no more lines than the offset, all lines counted, the poll
  writes no event, leaves the offset as it was and records the new size. The offset
  is not set back to the number of records decoded.
\<close>

theorem changed_size_short_file:
  assumes "st_size f \<noteq> last_size c"
    and "int (length (readlines (content f))) \<le> offset c"
  shows "poll loads (Some f) c = ([], \<lparr>offset = offset c, last_size = st_size f\<rparr>)"
  using assms by (simp add: poll_reads new_frames_beyond)

theorem changed_size_short_file_witness:
  "poll json_loads (Some one_record_log) \<lparr>offset = 5, last_size = 40\<rparr>
     = ([], \<lparr>offset = 5, last_size = 8\<rparr>)"
proof -
  have h1: "st_size one_record_log \<noteq> last_size \<lparr>offset = 5, last_size = 40\<rparr>"
    by (simp add: one_record_log_def)
  have h2: "int (length (readlines (content one_record_log)))
              \<le> offset \<lparr>offset = 5, last_size = 40\<rparr>"
    by code_simp
  show ?thesis
    using changed_size_short_file [OF h1 h2, of json_loads]
    by (simp add: one_record_log_def)
qed

text \<open>
  Claim C3 as stated fails twice. With offset 5 and a log of one record, the size
  changed and the record count 1 below the offset, the offset after the poll is not
  1. With offset 2 and a log of two empty lines and a record, the size changed and
  the record count 1 below the offset, the poll writes an event, with index 2.
\<close>

theorem shrunk_file_counterexample:
  "(let c = \<lparr>offset = 5, last_size = 40\<rparr>;
        n = int (length (collect_events json_loads (readlines (content one_record_log)) []))
    in st_size one_record_log \<noteq> last_size c \<and> n < offset c
       \<and> offset (snd (poll json_loads (Some one_record_log) c)) \<noteq> n)
   \<and> (let c = \<lparr>offset = 2, last_size = 40\<rparr>;
          n = int (length (collect_events json_loads (readlines (content late_record_log)) []))
      in st_size late_record_log \<noteq> last_size c \<and> n < offset c
         \<and> fst (poll json_loads (Some late_record_log) c) = [Data 2 (rec_a 1)])"
  by code_simp

subsection \<open>Polling twice\<close>

text \<open>
  Claim C6, as the code has it. For every observation of the log and every cursor,
  a second poll of the same observation, from the cursor the first poll left,
  writes no event and leaves that cursor as it is. The first poll, too, writes
  nothing and leaves the cursor alone when the log is absent or its size is the one
  the cursor recorded.
\<close>

theorem second_poll_idle:
  "poll loads log (snd (poll loads log c)) = ([], snd (poll loads log c))
   \<and> (unchanged log c \<longrightarrow> poll loads log c = ([], c))"
  by (simp add: poll_idle poll_unchanged_after)

theorem second_poll_idle_witness:
  "unchanged (Some scenario_log) \<lparr>offset = 3, last_size = 17\<rparr>
   \<and> poll json_loads (Some scenario_log) \<lparr>offset = 3, last_size = 17\<rparr>
       = ([], \<lparr>offset = 3, last_size = 17\<rparr>)"
proof -
  have u: "unchanged (Some scenario_log) \<lparr>offset = 3, last_size = 17\<rparr>"
    by (simp add: unchanged_def scenario_log_def)
  show ?thesis
    using second_poll_idle [of json_loads "Some scenario_log" "\<lparr>offset = 3, last_size = 17\<rparr>"] u
    by simp
qed

text \<open>
  Claim C6 as stated fails for the first of the two polls: on the scenario log, from
  a fresh cursor, it writes two events.
\<close>

theorem first_poll_counterexample:
  "fst (poll json_loads (Some scenario_log) \<lparr>offset = 0, last_size = 0\<rparr>) \<noteq> []
   \<and> fst (poll json_loads (Some scenario_log) \<lparr>offset = 0, last_size = 0\<rparr>)
       = [Data 0 (rec_a 1), Data 2 (rec_a 2)]"
  by code_simp

subsection \<open>A trailing line caught half written\<close>

text \<open>
  Claim C10, as the code has it. A poll moves the offset only to one past a line
  that it decoded and wrote as an event. Hence, when a poll reads a log whose last
  line, at index \<open>k\<close>, is blank or malformed, and the offset before the poll is at
  most \<open>k\<close>, the offset after it is still at most \<open>k\<close>; the passes that follow
  and do not read the log leave the cursor as it is; and when the next poll that
  observes another size finds the line at index \<open>k\<close> well-formed, it writes that
  line as an event.
\<close>

theorem trailing_line_retried:
  fixes loads :: "string \<Rightarrow> 'r option"
  assumes read1: "st_size f1 \<noteq> last_size c"
    and last1: "Suc k = length (readlines (content f1))"
    and bad: "decode_line loads (readlines (content f1) ! k) = None"
    and start: "offset c \<le> int k"
    and idle: "list_all (\<lambda>l. unchanged l (snd (poll loads (Some f1) c))) idle"
    and read2: "st_size f2 \<noteq> st_size f1"
    and k2: "k < length (readlines (content f2))"
    and good: "decode_line loads (readlines (content f2) ! k) = Some e"
  shows "(let c1 = snd (poll loads (Some f1) c);
              cm = snd (stream_loop loads idle c1);
              out2 = fst (poll loads (Some f2) cm)
          in offset c1 \<le> int k \<and> cm = c1 \<and> Data k e \<in> set out2)
       \<and> (\<forall>log c'. offset (snd (poll loads log c')) \<noteq> offset c' \<longrightarrow>
            (\<exists>f j e'. log = Some f \<and> offset (snd (poll loads log c')) = int j + 1
               \<and> Data j e' \<in> set (fst (poll loads log c'))
               \<and> j < length (readlines (content f))
               \<and> decode_line loads (readlines (content f) ! j) = Some e'))"
proof -
  let ?c1 = "snd (poll loads (Some f1) c)"
  have le: "offset ?c1 \<le> int k"
  proof (cases "offset ?c1 = offset c")
    case True
    then show ?thesis using start by simp
  next
    case False
    then obtain j e' where j: "offset ?c1 = int j + 1"
      "j < length (readlines (content f1))"
      "decode_line loads (readlines (content f1) ! j) = Some e'"
      using poll_advance_emitted [of loads "Some f1" c] by auto
    have "j \<noteq> k" using j(3) bad by auto
    then show ?thesis using j(1,2) last1 by simp
  qed
  have cm: "snd (stream_loop loads idle ?c1) = ?c1"
    using idle by (rule stream_loop_idle)
  have ls: "last_size ?c1 = st_size f1" using read1 by (simp add: poll_reads)
  have "Data k e \<in> set (fst (poll loads (Some f2) ?c1))"
    using read2 ls le k2 good by (simp add: poll_reads new_frames_mem)
  then show ?thesis
    using le cm poll_advance_emitted [of loads _ _] by (simp add: Let_def)
qed

theorem trailing_line_retried_witness:
  "Data 1 (rec_a 2)
     \<in> set (fst (poll json_loads (Some completed_log)
                   (snd (poll json_loads (Some partial_log) \<lparr>offset = 0, last_size = 0\<rparr>))))"
proof -
  let ?c = "\<lparr>offset = 0, last_size = 0\<rparr>"
  have h1: "st_size partial_log \<noteq> last_size ?c" by code_simp
  have h2: "Suc 1 = length (readlines (content partial_log))" by code_simp
  have h3: "decode_line json_loads (readlines (content partial_log) ! 1) = None" by code_simp
  have h4: "offset ?c \<le> int 1" by simp
  have h5: "list_all (\<lambda>l. unchanged l (snd (poll json_loads (Some partial_log) ?c)))
              [Some partial_log, None]"
    by code_simp
  have h6: "st_size completed_log \<noteq> st_size partial_log" by code_simp
  have h7: "1 < length (readlines (content completed_log))" by code_simp
  have h8: "decode_line json_loads (readlines (content completed_log) ! 1) = Some (rec_a 2)"
    by code_simp
  let ?c1 = "snd (poll json_loads (Some partial_log) ?c)"
  let ?cm = "snd (stream_loop json_loads [Some partial_log, None] ?c1)"
  have "let c1 = ?c1; cm = snd (stream_loop json_loads [Some partial_log, None] c1);
            out2 = fst (poll json_loads (Some completed_log) cm)
        in offset c1 \<le> int 1 \<and> cm = c1 \<and> Data 1 (rec_a 2) \<in> set out2"
    using trailing_line_retried [OF h1 h2 h3 h4 h5 h6 h7 h8] by (rule conjunct1)
  then have a: "?cm = ?c1"
    and b: "Data 1 (rec_a 2) \<in> set (fst (poll json_loads (Some completed_log) ?cm))"
    unfolding Let_def by blast+
  show ?thesis using b unfolding a .
qed

text \<open>
  Claim C10 as stated fails twice. A session started at offset 5 polls the log
  whose last line, at index 1, is malformed: the offset after the poll is not at or
  before 1, and the next poll, which observes another size and finds line 1
  well-formed, writes no event. A session started at offset 0 polls the same log,
  then the log with a record after the malformed line, then, the size changed again,
  the log with line 1 well-formed: the last poll writes no event.
\<close>

theorem trailing_line_counterexample:
  "(let c1 = snd (poll json_loads (Some partial_log) \<lparr>offset = 5, last_size = 0\<rparr>)
    in length (readlines (content partial_log)) = 2
       \<and> decode_line json_loads (last (readlines (content partial_log))) = None
       \<and> \<not> offset c1 \<le> 1
       \<and> st_size completed_log \<noteq> last_size c1
       \<and> decode_line json_loads (readlines (content completed_log) ! 1) = Some (rec_a 2)
       \<and> fst (poll json_loads (Some completed_log) c1) = [])
   \<and> (let c1 = snd (poll json_loads (Some partial_log) \<lparr>offset = 0, last_size = 0\<rparr>);
          c2 = snd (poll json_loads (Some overtaken_log) c1)
      in offset c1 \<le> 1
         \<and> st_size repaired_log \<noteq> last_size c2
         \<and> decode_line json_loads (readlines (content repaired_log) ! 1) = Some (rec_a 2)
         \<and> fst (poll json_loads (Some repaired_log) c2) = [])"
  by code_simp

subsection \<open>The list of archived logs\<close>

text \<open>
  Claim C8. The list of archived logs holds exactly the entries of the log directory
  whose names match \<^verbatim>\<open>ralph_*.jsonl\<close>, each once, each with its name, its size and
  its time of last change, in descending order of the names. When the directory is
  absent or empty the list is empty, and nothing is raised.
\<close>

theorem list_logs_newest_name_first:
  "body (list_logs None :: ('r, 'm) reply) = JsonLogs []
   \<and> body (list_logs (Some []) :: ('r, 'm) reply) = JsonLogs []
   \<and> status (list_logs dir :: ('r, 'm) reply) = 200
   \<and> raised (list_logs dir :: ('r, 'm) reply) = None
   \<and> (\<forall>entries. dir = Some entries \<longrightarrow>
        (\<exists>ls. body (list_logs dir :: ('r, 'm) reply) = JsonLogs ls
           \<and> set ls = (\<lambda>f. \<lparr>name = d_name f, size = d_size f, modified = d_mtime f\<rparr>)
                        ` {f \<in> set entries. glob_match (d_name f)}
           \<and> length ls = length (filter (\<lambda>f. glob_match (d_name f)) entries)
           \<and> sorted (rev (map name ls))))"
proof -
  have "sorted (rev (map name (map (\<lambda>f. \<lparr>name = d_name f, size = d_size f, modified = d_mtime f\<rparr>)
          (sorted_reverse d_name xs))))" for xs :: "'m dir_entry list"
    using sorted_reverse_desc [of d_name xs] by (simp add: comp_def)
  then show ?thesis
    by (auto simp: list_logs_def sorted_reverse_def set_sorted_reverse length_sorted_reverse
          split: option.splits)
qed

theorem list_logs_newest_name_first_witness:
  "body (list_logs (Some example_dir) :: (json, nat) reply)
     = JsonLogs [\<lparr>name = ''ralph_2.jsonl'', size = 20, modified = 2\<rparr>,
                 \<lparr>name = ''ralph_1.jsonl'', size = 10, modified = 1\<rparr>]
   \<and> sorted (rev (map name [\<lparr>name = ''ralph_2.jsonl'', size = 20, modified = 2::nat\<rparr>,
                              \<lparr>name = ''ralph_1.jsonl'', size = 10, modified = 1\<rparr>]))"
proof -
  have b: "body (list_logs (Some example_dir) :: (json, nat) reply)
     = JsonLogs [\<lparr>name = ''ralph_2.jsonl'', size = 20, modified = 2\<rparr>,
                 \<lparr>name = ''ralph_1.jsonl'', size = 10, modified = 1\<rparr>]"
    by code_simp
  show ?thesis
    using list_logs_newest_name_first [of "Some example_dir", where ?'r = json] b
    by auto
qed

subsection \<open>A line that does not parse\<close>

text \<open>
  Claim C7 on the code. A line on which \<^verbatim>\<open>json.loads\<close> raises
  \<^verbatim>\<open>json.JSONDecodeError\<close> is skipped: the log with the line \<^verbatim>\<open>{"a":\<close> between two
  records is read as the two records, and nothing is raised. A line on which
  \<^verbatim>\<open>json.loads\<close> raises another exception is not skipped. On an open bracket
  followed by 4301 digits \<^verbatim>\<open>json.loads\<close> raises \<^verbatim>\<open>ValueError\<close>, the limit on the
  digits of an integer; for the log with this line between two records, both
  snapshot handlers end with that exception after the status 200 and the headers:
  the reply has no body, and the record after the line is never read.
\<close>

theorem oversized_number_aborts_snapshot:
  "(serve_log py_json_loads (Present (File overtaken_log)) :: (json, unit) reply)
       = \<lparr>status = 200,
          headers = [(''Content-Type'', ''application/json''),
                     (''Access-Control-Allow-Origin'', ''*''),
                     (''Cache-Control'', ''no-cache'')],
          body = JsonEvents [rec_a 1, rec_a 3], raised = None\<rparr>
   \<and> py_json_loads digits_line = Uncaught ValueError
   \<and> (serve_log py_json_loads (Present (File digits_log)) :: (json, unit) reply)
       = \<lparr>status = 200,
          headers = [(''Content-Type'', ''application/json''),
                     (''Access-Control-Allow-Origin'', ''*''),
                     (''Cache-Control'', ''no-cache'')],
          body = NoBody, raised = Some ValueError\<rparr>
   \<and> do_GET ''/api/log/ralph_1.jsonl'' = ServeSpecificLog ''ralph_1.jsonl''
   \<and> (fst (serve_specific_log py_json_loads example_log_dir digits_fs ''ralph_1.jsonl'')
        :: exn + (json, unit) reply)
       = Inr \<lparr>status = 200,
              headers = [(''Content-Type'', ''application/json''),
                         (''Access-Control-Allow-Origin'', ''*'')],
              body = NoBody, raised = Some ValueError\<rparr>"
proof -
  have o: "(serve_log py_json_loads (Present (File overtaken_log)) :: (json, unit) reply)
       = \<lparr>status = 200,
          headers = [(''Content-Type'', ''application/json''),
                     (''Access-Control-Allow-Origin'', ''*''),
                     (''Cache-Control'', ''no-cache'')],
          body = JsonEvents [rec_a 1, rec_a 3], raised = None\<rparr>"
    by code_simp
  have f: "digits_fs (path_join example_log_dir ''ralph_1.jsonl'') = Present (File digits_log)"
    by (simp add: digits_fs_def path_join_def path_parts_def py_startswith_def
          example_log_dir_def node_at_def)
  have e: "py_endswith ''ralph_1.jsonl'' ''.jsonl''" by (simp add: py_endswith_def)
  have g: "do_GET ''/api/log/ralph_1.jsonl'' = ServeSpecificLog ''ralph_1.jsonl''"
    by code_simp
  have s: "(serve_log py_json_loads (Present (File digits_log)) :: (json, unit) reply)
       = \<lparr>status = 200,
          headers = [(''Content-Type'', ''application/json''),
                     (''Access-Control-Allow-Origin'', ''*''),
                     (''Cache-Control'', ''no-cache'')],
          body = NoBody, raised = Some ValueError\<rparr>"
    using read_digits_log by (simp add: serve_log_def read_node_def Let_def)
  have a: "(fst (serve_specific_log py_json_loads example_log_dir digits_fs ''ralph_1.jsonl'')
        :: exn + (json, unit) reply)
       = Inr \<lparr>status = 200,
              headers = [(''Content-Type'', ''application/json''),
                         (''Access-Control-Allow-Origin'', ''*'')],
              body = NoBody, raised = Some ValueError\<rparr>"
    using f e read_digits_log by (simp add: serve_specific_log_def read_node_def Let_def)
  show ?thesis
    by (intro conjI) (fact o, fact digits_line_raises, fact s, fact g, fact a)
qed

subsection \<open>An offset that is not a number\<close>



subsection \<open>An archived log by name\<close>

text \<open>
  Claim C4, as the code has it. A request reaches \<^verbatim>\<open>serve_specific_log\<close> with the
  text after the last slash of its path as the name, so the name holds no slash.
  The handler first asks whether the joined path exists. It answers 404 when
  nothing exists there, and when something does and the name does not end in
  \<^verbatim>\<open>.jsonl\<close>; when the question itself fails, with a name too long for the file
  system, the error leaves the handler before anything is sent. On these paths the
  file system is touched once, by that question, before the extension is looked
  at. The handler touches no path but the joined one, and that path is the log
  directory or a place below it unless the name is \<^verbatim>\<open>..\<close>.
\<close>

theorem archived_name_is_last_segment:
  assumes "do_GET path = ServeSpecificLog n"
  shows "CHR ''/'' \<notin> set n
       \<and> (fs (path_join ld n) = Absent
            \<or> (fs (path_join ld n) \<noteq> StatError \<and> \<not> py_endswith n ''.jsonl'') \<longrightarrow>
            (serve_specific_log loads ld fs n :: (exn + ('r, 'm) reply) \<times> fs_access list)
              = (Inr (send_error 404 ''Log not found''), [Stat (path_join ld n)]))
       \<and> (fs (path_join ld n) = StatError \<longrightarrow>
            (serve_specific_log loads ld fs n :: (exn + ('r, 'm) reply) \<times> fs_access list)
              = (Inl OSError, [Stat (path_join ld n)]))
       \<and> (\<forall>a \<in> set (snd (serve_specific_log loads ld fs n
                              :: (exn + ('r, 'm) reply) \<times> fs_access list)).
            a = Stat (path_join ld n) \<or> a = Open (path_join ld n))
       \<and> (n \<noteq> ''..'' \<longrightarrow> inside_dir ld (path_join ld n))"
proof -
  have n: "n = last (py_split (CHR ''/'') [] path)"
    using assms by (simp add: do_GET_def split: if_splits)
  have ns: "CHR ''/'' \<notin> set n"
    unfolding n by (rule py_split_last_no_sep) simp
  have acc: "\<forall>a \<in> set (snd (serve_specific_log loads ld fs n
                              :: (exn + ('r, 'm) reply) \<times> fs_access list)).
            a = Stat (path_join ld n) \<or> a = Open (path_join ld n)"
    by (auto simp: serve_specific_log_def Let_def split: lookup.splits sum.splits)
  have nf: "fs (path_join ld n) = Absent
            \<or> (fs (path_join ld n) \<noteq> StatError \<and> \<not> py_endswith n ''.jsonl'') \<longrightarrow>
            (serve_specific_log loads ld fs n :: (exn + ('r, 'm) reply) \<times> fs_access list)
              = (Inr (send_error 404 ''Log not found''), [Stat (path_join ld n)])"
    by (cases "fs (path_join ld n)") (simp_all add: serve_specific_log_def Let_def)
  have se: "fs (path_join ld n) = StatError \<longrightarrow>
            (serve_specific_log loads ld fs n :: (exn + ('r, 'm) reply) \<times> fs_access list)
              = (Inl OSError, [Stat (path_join ld n)])"
    by (simp add: serve_specific_log_def Let_def)
  have ins: "n \<noteq> ''..'' \<longrightarrow> inside_dir ld (path_join ld n)"
    using inside_dir_segment [OF ns] by simp
  show ?thesis by (intro conjI) (fact ns, fact nf, fact se, fact acc, fact ins)
qed

theorem archived_name_is_last_segment_witness:
  "do_GET ''/api/log/../secret.jsonl'' = ServeSpecificLog ''secret.jsonl''
   \<and> inside_dir example_log_dir (path_join example_log_dir ''secret.jsonl'')
   \<and> (serve_specific_log py_json_loads example_log_dir secret_fs ''secret.jsonl''
        :: (exn + (json, unit) reply) \<times> fs_access list)
       = (Inr (send_error 404 ''Log not found''),
          [Stat (path_join example_log_dir ''secret.jsonl'')])
   \<and> do_GET ''/api/log/notalog.txt'' = ServeSpecificLog ''notalog.txt''
   \<and> (serve_specific_log py_json_loads example_log_dir archive_fs ''notalog.txt''
        :: (exn + (json, unit) reply) \<times> fs_access list)
       = (Inr (send_error 404 ''Log not found''),
          [Stat (path_join example_log_dir ''notalog.txt'')])
   \<and> do_GET ''/api/log/notes.txt'' = ServeSpecificLog ''notes.txt''
   \<and> archive_fs (path_join example_log_dir ''notes.txt'') = Present (File one_record_log)
   \<and> (serve_specific_log py_json_loads example_log_dir archive_fs ''notes.txt''
        :: (exn + (json, unit) reply) \<times> fs_access list)
       = (Inr (send_error 404 ''Log not found''),
          [Stat (path_join example_log_dir ''notes.txt'')])
   \<and> do_GET (''/api/log/'' @ long_name) = ServeSpecificLog long_name
   \<and> (serve_specific_log py_json_loads example_log_dir archive_fs long_name
        :: (exn + (json, unit) reply) \<times> fs_access list)
       = (Inl OSError, [Stat (path_join example_log_dir long_name)])"
proof -
  have d: "do_GET ''/api/log/notes.txt'' = ServeSpecificLog ''notes.txt''"
    by code_simp
  have d1: "archive_fs (path_join example_log_dir ''notes.txt'') = Present (File one_record_log)"
    by (simp add: archive_fs_def path_join_def path_parts_def py_startswith_def
          example_log_dir_def node_at_def)
  have d2: "\<not> py_endswith ''notes.txt'' ''.jsonl''"
    by (simp add: py_endswith_def)
  note t4 = archived_name_is_last_segment [OF d, where fs = archive_fs
      and ld = example_log_dir and loads = py_json_loads and ?'r = json and ?'m = unit]
  from t4 d1 d2 have s4:
    "(serve_specific_log py_json_loads example_log_dir archive_fs ''notes.txt''
        :: (exn + (json, unit) reply) \<times> fs_access list)
       = (Inr (send_error 404 ''Log not found''),
          [Stat (path_join example_log_dir ''notes.txt'')])"
    by simp
  have a: "do_GET ''/api/log/../secret.jsonl'' = ServeSpecificLog ''secret.jsonl''"
    by code_simp
  have b: "do_GET ''/api/log/notalog.txt'' = ServeSpecificLog ''notalog.txt''"
    by code_simp
  have c: "do_GET (''/api/log/'' @ long_name) = ServeSpecificLog long_name"
    by code_simp
  have a1: "secret_fs (path_join example_log_dir ''secret.jsonl'') = Absent"
    "''secret.jsonl'' \<noteq> ''..''"
    by code_simp+
  have b1: "archive_fs (path_join example_log_dir ''notalog.txt'') = Absent"
    by code_simp
  have c1: "archive_fs (path_join example_log_dir long_name) = StatError"
    by code_simp
  note t1 = archived_name_is_last_segment [OF a, where fs = secret_fs
      and ld = example_log_dir and loads = py_json_loads and ?'r = json and ?'m = unit]
  note t2 = archived_name_is_last_segment [OF b, where fs = archive_fs
      and ld = example_log_dir and loads = py_json_loads and ?'r = json and ?'m = unit]
  note t3 = archived_name_is_last_segment [OF c, where fs = archive_fs
      and ld = example_log_dir and loads = py_json_loads and ?'r = json and ?'m = unit]
  from t1 a1(2) have i1:
    "inside_dir example_log_dir (path_join example_log_dir ''secret.jsonl'')"
    by blast
  from t1 a1(1) have s1:
    "(serve_specific_log py_json_loads example_log_dir secret_fs ''secret.jsonl''
        :: (exn + (json, unit) reply) \<times> fs_access list)
       = (Inr (send_error 404 ''Log not found''),
          [Stat (path_join example_log_dir ''secret.jsonl'')])"
    by blast
  from t2 b1 have s2:
    "(serve_specific_log py_json_loads example_log_dir archive_fs ''notalog.txt''
        :: (exn + (json, unit) reply) \<times> fs_access list)
       = (Inr (send_error 404 ''Log not found''),
          [Stat (path_join example_log_dir ''notalog.txt'')])"
    by blast
  from t3 c1 have s3:
    "(serve_specific_log py_json_loads example_log_dir archive_fs long_name
        :: (exn + (json, unit) reply) \<times> fs_access list)
       = (Inl OSError, [Stat (path_join example_log_dir long_name)])"
    by blast
  show ?thesis
    by (intro conjI)
       (fact a, fact i1, fact s1, fact b, fact s2, fact d, fact d1, fact s4, fact c, fact s3)
qed

text \<open>
  Claim C4 as stated fails. Given the name \<^verbatim>\<open>../secret.jsonl\<close>, the handler looks
  for the file beside the log directory and, when it is there, serves it with
  status 200; when it is not there, the answer is 404, after the same look outside
  the log directory. A request for \<^verbatim>\<open>/api/log/..\<close> is answered 404 after a look at
  the parent of the log directory.
\<close>

theorem traversal_name_counterexample:
  "(serve_specific_log py_json_loads example_log_dir secret_fs ''../secret.jsonl''
      :: (exn + (json, unit) reply) \<times> fs_access list)
     = (Inr \<lparr>status = 200,
             headers = [(''Content-Type'', ''application/json''),
                        (''Access-Control-Allow-Origin'', ''*'')],
             body = JsonEvents [rec_a 1], raised = None\<rparr>,
        [Stat [''srv'', ''ralph-logs'', ''..'', ''secret.jsonl''],
         Open [''srv'', ''ralph-logs'', ''..'', ''secret.jsonl'']])
   \<and> secret_fs example_log_dir = Present Directory
   \<and> path_join example_log_dir ''../secret.jsonl''
       = [''srv'', ''ralph-logs'', ''..'', ''secret.jsonl'']
   \<and> \<not> inside_dir example_log_dir (path_join example_log_dir ''../secret.jsonl'')
   \<and> (serve_specific_log py_json_loads example_log_dir archive_fs ''../secret.jsonl''
        :: (exn + (json, unit) reply) \<times> fs_access list)
       = (Inr (send_error 404 ''Log not found''),
          [Stat [''srv'', ''ralph-logs'', ''..'', ''secret.jsonl'']])
   \<and> do_GET ''/api/log/..'' = ServeSpecificLog ''..''
   \<and> (serve_specific_log py_json_loads example_log_dir archive_fs ''..''
        :: (exn + (json, unit) reply) \<times> fs_access list)
       = (Inr (send_error 404 ''Log not found''), [Stat [''srv'', ''ralph-logs'', ''..'']])
   \<and> \<not> inside_dir example_log_dir (path_join example_log_dir ''..'')"
  by code_simp

subsection \<open>The headers of the replies\<close>

text \<open>
  Claim C5 on the code. The replies to \<^verbatim>\<open>/api/logs\<close> and to
  \<^verbatim>\<open>/api/log/ralph_1.jsonl\<close>, both with status 200, carry no \<^verbatim>\<open>Cache-Control\<close>
  header, while those to \<^verbatim>\<open>/api/log\<close> and \<^verbatim>\<open>/api/log/stream\<close> carry
  \<^verbatim>\<open>Cache-Control: no-cache\<close>.
\<close>

theorem archive_replies_lack_cache_control:
  "do_GET ''/api/logs'' = ListLogs
   \<and> status (list_logs (Some example_dir) :: (json, nat) reply) = 200
   \<and> map_of (headers (list_logs (Some example_dir) :: (json, nat) reply)) ''Cache-Control''
       = None
   \<and> do_GET ''/api/log/ralph_1.jsonl'' = ServeSpecificLog ''ralph_1.jsonl''
   \<and> (case fst (serve_specific_log py_json_loads example_log_dir archive_fs ''ralph_1.jsonl''
                 :: (exn + (json, nat) reply) \<times> fs_access list) of
        Inl e \<Rightarrow> False
      | Inr r \<Rightarrow> status r = 200 \<and> map_of (headers r) ''Cache-Control'' = None)
   \<and> map_of (headers (serve_log py_json_loads (Present (File scenario_log))
                       :: (json, nat) reply)) ''Cache-Control'' = Some ''no-cache''
   \<and> map_of (headers (stream_log json_loads None [] :: (json, nat) reply)) ''Cache-Control''
       = Some ''no-cache''"
  by code_simp


end
